theory Spec2Isabelle
  imports Complex_Main
begin

section \<open>Data model\<close>

text \<open>
  The notebook \<^verbatim>\<open>0_basics.ipynb\<close> defines \<^verbatim>\<open>go_fast\<close>, \<^verbatim>\<open>spherical_to_cartesian\<close> and
  \<^verbatim>\<open>random_directions\<close> under \<^verbatim>\<open>@jit(nopython=True)\<close>. The compiled code indexes arrays
  without a bounds check, the interpreter raises IndexError; \<^verbatim>\<open>go_fast\<close> is the one function
  whose text can index out of bounds, so it is embedded twice: \<open>go_fast\<close> is the compiled
  function the notebook calls, \<open>go_fast_py_func\<close> the uncompiled original behind
  \<^verbatim>\<open>go_fast.py_func\<close>. The other two functions behave alike under both. \<^verbatim>\<open>go_numpy\<close> is not
  embedded: whether its sum equals the loop's is decided by the order of the float64
  additions, which the reals used below cannot see.

  Numbers: a float64 is idealised as a \<^typ>\<open>real\<close>, so every statement below is one of exact
  real arithmetic; rounding, infinities and nan are outside the model. An int64 element of
  an array is a real as well, and the element type is kept as a tag.
\<close>

datatype error = IndexError | ValueError | DomainError

datatype dtype = Int64 | Float64

text \<open>A two-dimensional NumPy array: its shape, its element type and its buffer in
  row-major order.\<close>

record ndarray =
  shape0 :: nat
  shape1 :: nat
  dtype :: dtype
  data :: "real list"

definition wf_ndarray :: "ndarray \<Rightarrow> bool" where
  "wf_ndarray a \<longleftrightarrow> length (data a) = shape0 a * shape1 a"

text \<open>
  Arrays are objects passed by reference. The world holds the arrays that are reachable
  across a call (a reference is an index into \<open>heap\<close>; allocation appends) and the position
  of the random generator, which outlives the call: the number of values \<^verbatim>\<open>random()\<close> has
  returned so far.
\<close>

type_synonym ref = nat

record world =
  heap :: "ndarray list"
  rng :: nat

section \<open>NumPy and \<^verbatim>\<open>random\<close> primitives\<close>

text \<open>\<^verbatim>\<open>a[i, j]\<close> in the interpreter, for non-negative indices: IndexError outside the
  shape.\<close>

definition getitem :: "ndarray \<Rightarrow> nat \<Rightarrow> nat \<Rightarrow> error + real" where
  "getitem a i j =
     (if i < shape0 a \<and> j < shape1 a then Inr (data a ! (i * shape1 a + j))
      else Inl IndexError)"

text \<open>
  \<^verbatim>\<open>a[i, j]\<close> in compiled code: no bounds check. The read goes to the cell at offset
  \<open>i * shape1 + j\<close> of the buffer, which has \<open>shape0 * shape1\<close> cells; an offset past the
  buffer reads whatever the memory behind it holds, the parameter \<open>behind\<close>. (A fault of the
  process on memory it may not read is outside the model.)
\<close>

definition getitem_nocheck :: "(nat \<Rightarrow> real) \<Rightarrow> ndarray \<Rightarrow> nat \<Rightarrow> nat \<Rightarrow> real" where
  "getitem_nocheck behind a i j =
     (let k = i * shape1 a + j in
      if k < shape0 a * shape1 a then data a ! k else behind (k - shape0 a * shape1 a))"

text \<open>\<^verbatim>\<open>a + s\<close> for a scalar float \<open>s\<close>: a new float64 array of the same shape.\<close>

definition np_add_scalar :: "ndarray \<Rightarrow> real \<Rightarrow> world \<Rightarrow> ref \<times> world" where
  "np_add_scalar a s w =
     (length (heap w),
      w\<lparr>heap := heap w @ [a\<lparr>dtype := Float64, data := map (\<lambda>v. v + s) (data a)\<rparr>]\<rparr>)"

text \<open>\<^verbatim>\<open>np.empty(shape=(n, m), dtype=np.float64)\<close>: a new array whose buffer is not
  initialised; \<open>junk\<close> is whatever the memory holds.\<close>

definition np_empty :: "nat \<Rightarrow> nat \<Rightarrow> (nat \<Rightarrow> real) \<Rightarrow> world \<Rightarrow> ref \<times> world" where
  "np_empty n m junk w =
     (length (heap w),
      w\<lparr>heap := heap w @
         [\<lparr>shape0 = n, shape1 = m, dtype = Float64, data = map junk [0..<n * m]\<rparr>]\<rparr>)"

text \<open>\<^verbatim>\<open>out[i] = x, y, z\<close>: IndexError when row \<open>i\<close> does not exist, ValueError when a row
  does not have three entries; otherwise the three cells of row \<open>i\<close> are overwritten in
  place.\<close>

definition setitem_row :: "ref \<Rightarrow> nat \<Rightarrow> real \<times> real \<times> real \<Rightarrow> world \<Rightarrow> (error + unit) \<times> world" where
  "setitem_row out i xyz w =
     (let arr = heap w ! out in
      if \<not> i < shape0 arr then (Inl IndexError, w)
      else if shape1 arr \<noteq> 3 then (Inl ValueError, w)
      else (case xyz of (x, y, z) \<Rightarrow>
        (Inr (),
         w\<lparr>heap := (heap w)[out := arr\<lparr>data :=
            (data arr)[i * 3 := x, i * 3 + 1 := y, i * 3 + 2 := z]\<rparr>]\<rparr>)))"

text \<open>\<^verbatim>\<open>np.arccos\<close>: defined on \<open>[-1, 1]\<close>; outside it NumPy yields nan, which the model
  reports as the domain error the specification speaks of.\<close>

definition np_arccos :: "real \<Rightarrow> error + real" where
  "np_arccos x = (if - 1 \<le> x \<and> x \<le> 1 then Inr (arccos x) else Inl DomainError)"

text \<open>\<^verbatim>\<open>random.uniform(a, b)\<close> is \<^verbatim>\<open>a + (b - a) * random()\<close>. The generator is not part of
  the notebook (it is the standard library's in the interpreter and Numba's own in compiled
  code), so the sequence of values of \<^verbatim>\<open>random()\<close> is the parameter \<open>gen\<close>; both promise
  values in \<open>[0, 1)\<close>.\<close>

definition random_uniform :: "(nat \<Rightarrow> real) \<Rightarrow> real \<Rightarrow> real \<Rightarrow> world \<Rightarrow> real \<times> world" where
  "random_uniform gen a b w = (a + (b - a) * gen (rng w), w\<lparr>rng := Suc (rng w)\<rparr>)"

definition unit_draws :: "(nat \<Rightarrow> real) \<Rightarrow> bool" where
  "unit_draws gen \<longleftrightarrow> (\<forall>k. 0 \<le> gen k \<and> gen k < 1)"

section \<open>The example functions\<close>

subsection \<open>\<^verbatim>\<open>go_fast\<close>\<close>

text \<open>The loop \<^verbatim>\<open>for i in range(a.shape[0]): trace += np.tanh(a[i, i])\<close>, with the
  counter \<open>i\<close> and the bound \<open>n\<close>, as compiled: the read is not checked and cannot fail.\<close>

function go_fast_loop :: "(nat \<Rightarrow> real) \<Rightarrow> ndarray \<Rightarrow> nat \<Rightarrow> nat \<Rightarrow> real \<Rightarrow> real" where
  "go_fast_loop behind a i n trace =
     (if i < n then go_fast_loop behind a (Suc i) n (trace + tanh (getitem_nocheck behind a i i))
      else trace)"
  by pat_completeness auto
termination
  by (relation "measure (\<lambda>(behind, a, i, n, trace). n - i)") auto

declare go_fast_loop.simps [simp del]

definition go_fast :: "(nat \<Rightarrow> real) \<Rightarrow> ref \<Rightarrow> world \<Rightarrow> (error + ref) \<times> world" where
  "go_fast behind a w =
     (let arr = heap w ! a in
      case np_add_scalar arr (go_fast_loop behind arr 0 (shape0 arr) 0) w of
        (p, w') \<Rightarrow> (Inr p, w'))"

subsection \<open>\<^verbatim>\<open>go_fast.py_func\<close>\<close>

text \<open>The same text run by the interpreter: every read is checked, and IndexError ends
  the call.\<close>

function go_fast_py_func_loop :: "ndarray \<Rightarrow> nat \<Rightarrow> nat \<Rightarrow> real \<Rightarrow> error + real" where
  "go_fast_py_func_loop a i n trace =
     (if i < n then
        (case getitem a i i of
           Inl e \<Rightarrow> Inl e
         | Inr v \<Rightarrow> go_fast_py_func_loop a (Suc i) n (trace + tanh v))
      else Inr trace)"
  by pat_completeness auto
termination
  by (relation "measure (\<lambda>(a, i, n, trace). n - i)") auto

declare go_fast_py_func_loop.simps [simp del]

definition go_fast_py_func :: "ref \<Rightarrow> world \<Rightarrow> (error + ref) \<times> world" where
  "go_fast_py_func a w =
     (let arr = heap w ! a in
      case go_fast_py_func_loop arr 0 (shape0 arr) 0 of
        Inl e \<Rightarrow> (Inl e, w)
      | Inr trace \<Rightarrow> (case np_add_scalar arr trace w of (p, w') \<Rightarrow> (Inr p, w')))"

subsection \<open>\<^verbatim>\<open>spherical_to_cartesian\<close>\<close>

definition spherical_to_cartesian :: "real \<Rightarrow> real \<Rightarrow> real \<Rightarrow> real \<times> real \<times> real" where
  "spherical_to_cartesian r theta phi =
     (let sin_theta = sin theta;
          x = r * sin_theta * cos phi;
          y = r * sin_theta * sin phi;
          z = r * cos theta
      in (x, y, z))"

subsection \<open>\<^verbatim>\<open>random_directions\<close>\<close>

text \<open>
  Python looks the name \<^verbatim>\<open>spherical_to_cartesian\<close> up in the module's namespace when the
  call in the loop executes. That binding is the argument \<open>conv\<close> of the body, of the loop and
  of \<open>random_directions_with\<close>; \<open>random_directions\<close> is the function at the notebook's own
  binding.
\<close>

definition random_directions_body ::
  "(real \<Rightarrow> real \<Rightarrow> real \<Rightarrow> real \<times> real \<times> real) \<Rightarrow> (nat \<Rightarrow> real) \<Rightarrow> ref \<Rightarrow> real \<Rightarrow> nat \<Rightarrow> world
     \<Rightarrow> (error + unit) \<times> world" where
  "random_directions_body conv gen out r i w =
     (case random_uniform gen 0 (2 * pi) w of (phi, w1) \<Rightarrow>
       (case random_uniform gen (- 1) 1 w1 of (u, w2) \<Rightarrow>
         (case np_arccos u of
            Inl e \<Rightarrow> (Inl e, w2)
          | Inr theta \<Rightarrow> setitem_row out i (conv r theta phi) w2)))"

function random_directions_loop ::
  "(real \<Rightarrow> real \<Rightarrow> real \<Rightarrow> real \<times> real \<times> real) \<Rightarrow> (nat \<Rightarrow> real) \<Rightarrow> ref \<Rightarrow> real \<Rightarrow> nat \<Rightarrow> nat \<Rightarrow> world
     \<Rightarrow> (error + unit) \<times> world" where
  "random_directions_loop conv gen out r i n w =
     (if i < n then
        (case random_directions_body conv gen out r i w of
           (Inl e, w') \<Rightarrow> (Inl e, w')
         | (Inr u, w') \<Rightarrow> random_directions_loop conv gen out r (Suc i) n w')
      else (Inr (), w))"
  by pat_completeness auto
termination
  by (relation "measure (\<lambda>(conv, gen, out, r, i, n, w). n - i)") auto

declare random_directions_loop.simps [simp del]

text \<open>The count \<open>n\<close> is a Python integer: \<^verbatim>\<open>np.empty\<close> raises ValueError for a negative
  extent.\<close>

definition random_directions_with ::
  "(real \<Rightarrow> real \<Rightarrow> real \<Rightarrow> real \<times> real \<times> real) \<Rightarrow> (nat \<Rightarrow> real) \<Rightarrow> (nat \<Rightarrow> real) \<Rightarrow> int \<Rightarrow> real \<Rightarrow> world
     \<Rightarrow> (error + ref) \<times> world" where
  "random_directions_with conv gen junk n r w =
     (if n < 0 then (Inl ValueError, w)
      else (case np_empty (nat n) 3 junk w of (out, w1) \<Rightarrow>
        (case random_directions_loop conv gen out r 0 (nat n) w1 of
           (Inl e, w2) \<Rightarrow> (Inl e, w2)
         | (Inr u, w2) \<Rightarrow> (Inr out, w2))))"

definition random_directions :: "(nat \<Rightarrow> real) \<Rightarrow> (nat \<Rightarrow> real) \<Rightarrow> int \<Rightarrow> real \<Rightarrow> world \<Rightarrow> (error + ref) \<times> world" where
  "random_directions = random_directions_with spherical_to_cartesian"

section \<open>Reading the results\<close>

text \<open>\<^verbatim>\<open>out[k]\<close> of an array with three columns, as a tuple.\<close>

definition row3 :: "ndarray \<Rightarrow> nat \<Rightarrow> real \<times> real \<times> real" where
  "row3 a k = (data a ! (k * 3), data a ! (k * 3 + 1), data a ! (k * 3 + 2))"

text \<open>The angles one iteration draws when the generator is at position \<open>pos\<close>, and the
  tuple the iteration stores: \<open>phi\<close> is drawn first, \<open>theta\<close> second.\<close>

definition drawn_phi :: "(nat \<Rightarrow> real) \<Rightarrow> nat \<Rightarrow> real" where
  "drawn_phi gen pos = 0 + (2 * pi - 0) * gen pos"

definition drawn_theta :: "(nat \<Rightarrow> real) \<Rightarrow> nat \<Rightarrow> real" where
  "drawn_theta gen pos = arccos (- 1 + (1 - (- 1)) * gen (Suc pos))"

definition direction ::
  "(real \<Rightarrow> real \<Rightarrow> real \<Rightarrow> real \<times> real \<times> real) \<Rightarrow> (nat \<Rightarrow> real) \<Rightarrow> real \<Rightarrow> nat \<Rightarrow> real \<times> real \<times> real" where
  "direction conv gen r pos = conv r (drawn_theta gen pos) (drawn_phi gen pos)"

text \<open>The value \<^verbatim>\<open>go_fast\<close> accumulates, in the words of its description: start from
  \<open>0.0\<close> and add \<open>tanh (a[i, i])\<close> for \<open>i = 0, 1, ...\<close> in this order.\<close>

definition diag_tanh_trace :: "ndarray \<Rightarrow> real" where
  "diag_tanh_trace a =
     foldl (\<lambda>acc i. acc + tanh (data a ! (i * shape1 a + i))) 0 [0..<shape0 a]"

text \<open>What a caller sees of a call: the error, or the array behind the returned
  reference.\<close>

definition deref :: "(error + ref) \<times> world \<Rightarrow> error + ndarray" where
  "deref c = (case fst c of Inl e \<Rightarrow> Inl e | Inr p \<Rightarrow> Inr (heap (snd c) ! p))"

definition norm_sq :: "real \<times> real \<times> real \<Rightarrow> real" where
  "norm_sq v = (case v of (x, y, z) \<Rightarrow> x\<^sup>2 + y\<^sup>2 + z\<^sup>2)"

section \<open>Concrete inputs\<close>

text \<open>The notebook's \<^verbatim>\<open>x = np.arange(100).reshape(10, 10)\<close>, an array with more rows than
  columns, a square array with a zero diagonal, a world holding one array, a generator whose first value is \<open>0\<close> and whose other
  values are \<open>1/2\<close>, zeroed memory, and a conversion that ignores its arguments.\<close>

definition notebook_x :: ndarray where
  "notebook_x = \<lparr>shape0 = 10, shape1 = 10, dtype = Int64, data = map real [0..<100]\<rparr>"

definition tall_array :: ndarray where
  "tall_array = \<lparr>shape0 = 2, shape1 = 1, dtype = Float64, data = [1, 2]\<rparr>"

definition zero_diag :: ndarray where
  "zero_diag = \<lparr>shape0 = 2, shape1 = 2, dtype = Int64, data = [0, 5, 7, 0]\<rparr>"

definition world_with :: "ndarray \<Rightarrow> world" where
  "world_with a = \<lparr>heap = [a], rng = 0\<rparr>"

definition empty_world :: world where
  "empty_world = \<lparr>heap = [], rng = 0\<rparr>"

definition half_gen :: "nat \<Rightarrow> real" where
  "half_gen k = (if k = 0 then 0 else 1 / 2)"

definition zero_junk :: "nat \<Rightarrow> real" where
  "zero_junk k = 0"

definition origin_conv :: "real \<Rightarrow> real \<Rightarrow> real \<Rightarrow> real \<times> real \<times> real" where
  "origin_conv r theta phi = (0, 0, 0)"

section \<open>The loop of \<^verbatim>\<open>go_fast\<close>\<close>

lemma foldl_add_sum_list:
  "foldl (\<lambda>acc k. acc + f k) (t::real) xs = t + sum_list (map f xs)"
  by (induction xs arbitrary: t) simp_all

lemma go_fast_py_func_loop_in_bounds:
  "n \<le> shape0 a \<Longrightarrow> n \<le> shape1 a \<Longrightarrow>
   go_fast_py_func_loop a i n t = Inr (foldl (\<lambda>acc k. acc + tanh (data a ! (k * shape1 a + k))) t [i..<n])"
proof (induction a i n t rule: go_fast_py_func_loop.induct)
  case (1 a i n trace)
  show ?case
  proof (cases "i < n")
    case True
    then have g: "getitem a i i = Inr (data a ! (i * shape1 a + i))"
      using "1.prems" by (simp add: getitem_def)
    show ?thesis
      using True "1.IH"[OF True g] "1.prems"
      by (subst go_fast_py_func_loop.simps) (simp add: g upt_conv_Cons)
  next
    case False
    then show ?thesis by (subst go_fast_py_func_loop.simps) simp
  qed
qed

lemma go_fast_py_func_loop_out_of_bounds:
  "i \<le> shape1 a \<Longrightarrow> shape1 a < n \<Longrightarrow> n \<le> shape0 a \<Longrightarrow> go_fast_py_func_loop a i n t = Inl IndexError"
proof (induction a i n t rule: go_fast_py_func_loop.induct)
  case (1 a i n trace)
  have lt: "i < n" using "1.prems" by simp
  show ?case
  proof (cases "i < shape1 a")
    case True
    then have g: "getitem a i i = Inr (data a ! (i * shape1 a + i))"
      using "1.prems" by (simp add: getitem_def)
    show ?thesis
      using True "1.IH"[OF lt g] "1.prems" lt
      by (subst go_fast_py_func_loop.simps) (simp add: g)
  next
    case False
    then have g: "getitem a i i = Inl IndexError" by (simp add: getitem_def)
    show ?thesis using lt by (subst go_fast_py_func_loop.simps) (simp add: g)
  qed
qed

lemma getitem_nocheck_in_bounds:
  assumes "i < shape0 a" and "j < shape1 a"
  shows "getitem_nocheck behind a i j = data a ! (i * shape1 a + j)"
proof -
  have "i * shape1 a + j < Suc i * shape1 a" using assms(2) by simp
  also have "\<dots> \<le> shape0 a * shape1 a"
    using assms(1) by (intro mult_le_mono1) simp
  finally show ?thesis by (simp add: getitem_nocheck_def)
qed

lemma go_fast_loop_fold:
  "go_fast_loop behind a i n t
     = foldl (\<lambda>acc k. acc + tanh (getitem_nocheck behind a k k)) t [i..<n]"
proof (induction behind a i n t rule: go_fast_loop.induct)
  case (1 behind a i n trace)
  show ?case
  proof (cases "i < n")
    case True
    then show ?thesis
      using "1.IH"[OF True] by (subst go_fast_loop.simps) (simp add: upt_conv_Cons)
  next
    case False
    then show ?thesis by (subst go_fast_loop.simps) simp
  qed
qed

lemma go_fast_loop_in_bounds:
  assumes "n \<le> shape0 a" and "n \<le> shape1 a"
  shows "go_fast_loop behind a i n t
     = foldl (\<lambda>acc k. acc + tanh (data a ! (k * shape1 a + k))) t [i..<n]"
proof -
  have "getitem_nocheck behind a k k = data a ! (k * shape1 a + k)" if "k \<in> set [i..<n]" for k
    using that assms by (intro getitem_nocheck_in_bounds) simp_all
  then show ?thesis
    unfolding go_fast_loop_fold by (intro foldl_cong) simp_all
qed

section \<open>The loop of \<^verbatim>\<open>random_directions\<close>\<close>

lemma row3_update:
  assumes "length d = m * 3" "i < m" "k < m"
  shows "(d[i * 3 := x, i * 3 + 1 := y, i * 3 + 2 := z] ! (k * 3),
          d[i * 3 := x, i * 3 + 1 := y, i * 3 + 2 := z] ! (k * 3 + 1),
          d[i * 3 := x, i * 3 + 1 := y, i * 3 + 2 := z] ! (k * 3 + 2))
       = (if k = i then (x, y, z) else (d ! (k * 3), d ! (k * 3 + 1), d ! (k * 3 + 2)))"
  using assms by (auto simp: nth_list_update)

lemma body_success:
  assumes "0 \<le> gen (Suc (rng w))" "gen (Suc (rng w)) \<le> 1"
    and "i < shape0 (heap w ! out)" "shape1 (heap w ! out) = 3"
  shows "random_directions_body conv gen out r i w =
     (case direction conv gen r (rng w) of (x, y, z) \<Rightarrow>
       (Inr (), w\<lparr>heap := (heap w)[out := (heap w ! out)\<lparr>data :=
            (data (heap w ! out))[i * 3 := x, i * 3 + 1 := y, i * 3 + 2 := z]\<rparr>],
            rng := rng w + 2\<rparr>))"
  using assms
  by (simp add: random_directions_body_def random_uniform_def np_arccos_def setitem_row_def
      direction_def drawn_phi_def drawn_theta_def Let_def split: prod.splits)

lemma setitem_row_frame:
  assumes "setitem_row out i xyz w = (res, w')"
  shows "length (heap w') = length (heap w) \<and> rng w' = rng w
       \<and> (\<forall>q. q \<noteq> out \<longrightarrow> heap w' ! q = heap w ! q)
       \<and> shape0 (heap w' ! out) = shape0 (heap w ! out)
       \<and> shape1 (heap w' ! out) = shape1 (heap w ! out)
       \<and> dtype (heap w' ! out) = dtype (heap w ! out)
       \<and> length (data (heap w' ! out)) = length (data (heap w ! out))"
proof (cases "out < length (heap w)")
  case True
  then show ?thesis using assms
    by (auto simp: setitem_row_def Let_def split: if_splits prod.splits)
next
  case False
  then show ?thesis using assms
    by (auto simp: setitem_row_def Let_def list_update_beyond split: if_splits prod.splits)
qed

lemma body_frame:
  assumes "random_directions_body conv gen out r i w = (res, w')"
  shows "length (heap w') = length (heap w) \<and> rng w' = rng w + 2
       \<and> (\<forall>q. q \<noteq> out \<longrightarrow> heap w' ! q = heap w ! q)
       \<and> shape0 (heap w' ! out) = shape0 (heap w ! out)
       \<and> shape1 (heap w' ! out) = shape1 (heap w ! out)
       \<and> dtype (heap w' ! out) = dtype (heap w ! out)
       \<and> length (data (heap w' ! out)) = length (data (heap w ! out))"
proof (cases "np_arccos (- 1 + (1 - (- 1)) * gen (Suc (rng w)))")
  case (Inl e)
  then show ?thesis using assms
    by (auto simp: random_directions_body_def random_uniform_def)
next
  case (Inr theta)
  then have "setitem_row out i (conv r theta (0 + (2 * pi - 0) * gen (rng w))) (w\<lparr>rng := Suc (Suc (rng w))\<rparr>) = (res, w')"
    using assms by (simp add: random_directions_body_def random_uniform_def)
  from setitem_row_frame[OF this] show ?thesis by simp
qed


lemma loop_frame:
  "random_directions_loop conv gen out r i n w = (res, w') \<Longrightarrow>
     length (heap w') = length (heap w)
   \<and> rng w \<le> rng w' \<and> rng w' \<le> rng w + 2 * (n - i)
   \<and> (res = Inr () \<longrightarrow> rng w' = rng w + 2 * (n - i))
   \<and> (\<forall>q. q \<noteq> out \<longrightarrow> heap w' ! q = heap w ! q)
   \<and> shape0 (heap w' ! out) = shape0 (heap w ! out)
   \<and> shape1 (heap w' ! out) = shape1 (heap w ! out)
   \<and> dtype (heap w' ! out) = dtype (heap w ! out)
   \<and> length (data (heap w' ! out)) = length (data (heap w ! out))"
proof (induction "n - i" arbitrary: i w)
  case 0
  then have ni: "n \<le> i" by simp
  then have "random_directions_loop conv gen out r i n w = (Inr (), w)"
    by (subst random_directions_loop.simps) simp
  with "0.prems" ni show ?case by simp
next
  case (Suc m)
  then have lt: "i < n" by simp
  obtain rb wb where b: "random_directions_body conv gen out r i w = (rb, wb)"
    by (cases "random_directions_body conv gen out r i w")
  note fb = body_frame[OF b]
  show ?case
  proof (cases rb)
    case (Inl e)
    then have "random_directions_loop conv gen out r i n w = (Inl e, wb)"
      using lt b by (subst random_directions_loop.simps) simp
    with Suc.prems have "res = Inl e" "w' = wb" by simp_all
    then show ?thesis using fb lt by simp
  next
    case (Inr u)
    then have "random_directions_loop conv gen out r i n w
             = random_directions_loop conv gen out r (Suc i) n wb"
      using lt b by (subst random_directions_loop.simps) simp
    with Suc.prems have l: "random_directions_loop conv gen out r (Suc i) n wb = (res, w')"
      by simp
    have m: "m = n - Suc i" using Suc.hyps(2) by simp
    from Suc.hyps(1)[OF m l] fb lt show ?thesis by auto
  qed
qed

lemma loop_rows:
  assumes "\<forall>k. 0 \<le> gen k \<and> gen k \<le> 1"
  shows "out < length (heap w) \<Longrightarrow> n \<le> shape0 (heap w ! out) \<Longrightarrow> shape1 (heap w ! out) = 3 \<Longrightarrow>
     length (data (heap w ! out)) = shape0 (heap w ! out) * 3 \<Longrightarrow>
     \<exists>w'. random_directions_loop conv gen out r i n w = (Inr (), w')
        \<and> (\<forall>k<shape0 (heap w ! out). row3 (heap w' ! out) k =
              (if i \<le> k \<and> k < n then direction conv gen r (rng w + 2 * (k - i))
               else row3 (heap w ! out) k))"
proof (induction "n - i" arbitrary: i w)
  case 0
  then have ni: "n \<le> i" by simp
  then have "random_directions_loop conv gen out r i n w = (Inr (), w)"
    by (subst random_directions_loop.simps) simp
  with ni show ?case by auto
next
  case (Suc m)
  then have lt: "i < n" by simp
  let ?arr = "heap w ! out"
  obtain x y z where d: "direction conv gen r (rng w) = (x, y, z)"
    by (cases "direction conv gen r (rng w)")
  define wb where "wb = w\<lparr>heap := (heap w)[out := ?arr\<lparr>data :=
            (data ?arr)[i * 3 := x, i * 3 + 1 := y, i * 3 + 2 := z]\<rparr>], rng := rng w + 2\<rparr>"
  have g: "0 \<le> gen (Suc (rng w))" "gen (Suc (rng w)) \<le> 1" using assms by simp_all
  have ish: "i < shape0 ?arr" using lt Suc.prems by simp
  have b: "random_directions_body conv gen out r i w = (Inr (), wb)"
    using body_success[of gen w i out conv r] g ish Suc.prems(3) d by (simp add: wb_def)
  have step: "random_directions_loop conv gen out r i n w
             = random_directions_loop conv gen out r (Suc i) n wb"
    using lt b by (subst random_directions_loop.simps) simp
  have hb: "heap wb ! out = ?arr\<lparr>data := (data ?arr)[i * 3 := x, i * 3 + 1 := y, i * 3 + 2 := z]\<rparr>"
    using Suc.prems(1) by (simp add: wb_def)
  have p1: "out < length (heap wb)" using Suc.prems(1) by (simp add: wb_def)
  have p2: "n \<le> shape0 (heap wb ! out)" using Suc.prems(2) by (simp add: hb)
  have p3: "shape1 (heap wb ! out) = 3" using Suc.prems(3) by (simp add: hb)
  have p4: "length (data (heap wb ! out)) = shape0 (heap wb ! out) * 3"
    using Suc.prems(4) by (simp add: hb)
  have m: "m = n - Suc i" using Suc.hyps(2) by simp
  from Suc.hyps(1)[OF m p1 p2 p3 p4] obtain w' where
    l: "random_directions_loop conv gen out r (Suc i) n wb = (Inr (), w')" and
    rows: "\<forall>k<shape0 (heap wb ! out). row3 (heap w' ! out) k =
              (if Suc i \<le> k \<and> k < n then direction conv gen r (rng wb + 2 * (k - Suc i))
               else row3 (heap wb ! out) k)"
    by blast
  have rb: "row3 (heap wb ! out) k = (if k = i then (x, y, z) else row3 ?arr k)"
    if "k < shape0 ?arr" for k
    unfolding row3_def hb using row3_update[OF Suc.prems(4) ish that, of x y z] by simp
  have "row3 (heap w' ! out) k =
              (if i \<le> k \<and> k < n then direction conv gen r (rng w + 2 * (k - i))
               else row3 ?arr k)" if k: "k < shape0 ?arr" for k
  proof -
    have k': "k < shape0 (heap wb ! out)" using k by (simp add: hb)
    show ?thesis
    proof (cases "Suc i \<le> k \<and> k < n")
      case True
      then have "rng wb + 2 * (k - Suc i) = rng w + 2 * (k - i)" by (auto simp: wb_def)
      then show ?thesis using rows k' True by simp
    next
      case False
      then have "row3 (heap w' ! out) k = row3 (heap wb ! out) k" using rows k' by auto
      then show ?thesis using rb[OF k] False lt d by (cases "k = i") auto
    qed
  qed
  then show ?case using step l by simp
qed

section \<open>Results of the calls\<close>

lemma rows_eq_imp_data_eq:
  fixes d1 d2 :: "real list"
  assumes l1: "length d1 = m * 3" and l2: "length d2 = m * 3"
    and rows: "\<forall>k<m. (d1 ! (k * 3), d1 ! (k * 3 + 1), d1 ! (k * 3 + 2))
                   = (d2 ! (k * 3), d2 ! (k * 3 + 1), d2 ! (k * 3 + 2))"
  shows "d1 = d2"
proof (rule nth_equalityI)
  show "length d1 = length d2" using l1 l2 by simp
next
  fix j assume "j < length d1"
  then have j: "j < m * 3" using l1 by simp
  then have k: "j div 3 < m" by auto
  have c: "j mod 3 = 0 \<or> j mod 3 = 1 \<or> j mod 3 = 2" by arith
  have e: "j = (j div 3) * 3 + j mod 3" by simp
  from rows k have r: "d1 ! ((j div 3) * 3) = d2 ! ((j div 3) * 3)"
      "d1 ! ((j div 3) * 3 + 1) = d2 ! ((j div 3) * 3 + 1)"
      "d1 ! ((j div 3) * 3 + 2) = d2 ! ((j div 3) * 3 + 2)" by auto
  from c show "d1 ! j = d2 ! j"
  proof (elim disjE)
    assume "j mod 3 = 0" with e have "j = (j div 3) * 3" by simp
    with r(1) show ?thesis by metis
  next
    assume "j mod 3 = 1" with e have "j = (j div 3) * 3 + 1" by simp
    with r(2) show ?thesis by metis
  next
    assume "j mod 3 = 2" with e have "j = (j div 3) * 3 + 2" by simp
    with r(3) show ?thesis by metis
  qed
qed

lemma unit_draws_closed: "unit_draws gen \<Longrightarrow> \<forall>k. 0 \<le> gen k \<and> gen k \<le> 1"
  by (auto simp: unit_draws_def less_imp_le)

lemma random_directions_with_result:
  assumes u: "unit_draws gen" and n: "0 \<le> n"
  shows "\<exists>w'. random_directions_with conv gen junk n r w = (Inr (length (heap w)), w')
      \<and> length (heap w') = Suc (length (heap w))
      \<and> (\<forall>q<length (heap w). heap w' ! q = heap w ! q)
      \<and> rng w' = rng w + 2 * nat n
      \<and> shape0 (heap w' ! length (heap w)) = nat n
      \<and> shape1 (heap w' ! length (heap w)) = 3
      \<and> dtype (heap w' ! length (heap w)) = Float64
      \<and> length (data (heap w' ! length (heap w))) = nat n * 3
      \<and> (\<forall>k<nat n. row3 (heap w' ! length (heap w)) k = direction conv gen r (rng w + 2 * k))"
proof -
  let ?out = "length (heap w)"
  define arr0 where "arr0 = \<lparr>shape0 = nat n, shape1 = 3, dtype = Float64, data = map junk [0..<nat n * 3]\<rparr>"
  define w1 where "w1 = w\<lparr>heap := heap w @ [arr0]\<rparr>"
  have e: "np_empty (nat n) 3 junk w = (?out, w1)"
    by (simp add: np_empty_def w1_def arr0_def)
  have h1: "heap w1 ! ?out = arr0" by (simp add: w1_def)
  have p1: "?out < length (heap w1)" by (simp add: w1_def)
  have p2: "nat n \<le> shape0 (heap w1 ! ?out)" by (simp add: h1 arr0_def)
  have p3: "shape1 (heap w1 ! ?out) = 3" by (simp add: h1 arr0_def)
  have p4: "length (data (heap w1 ! ?out)) = shape0 (heap w1 ! ?out) * 3" by (simp add: h1 arr0_def)
  from loop_rows[OF unit_draws_closed[OF u] p1 p2 p3 p4, of conv r 0] obtain w' where
    l: "random_directions_loop conv gen ?out r 0 (nat n) w1 = (Inr (), w')" and
    rows: "\<forall>k<shape0 (heap w1 ! ?out). row3 (heap w' ! ?out) k =
              (if 0 \<le> k \<and> k < nat n then direction conv gen r (rng w1 + 2 * (k - 0))
               else row3 (heap w1 ! ?out) k)"
    by blast
  note f = loop_frame[OF l]
  have res: "random_directions_with conv gen junk n r w = (Inr ?out, w')"
    using n e l by (simp add: random_directions_with_def)
  have old: "\<forall>q<?out. heap w' ! q = heap w ! q"
    using f by (simp add: w1_def nth_append)
  have rows': "\<forall>k<nat n. row3 (heap w' ! ?out) k = direction conv gen r (rng w + 2 * k)"
    using rows by (simp add: h1 arr0_def w1_def)
  show ?thesis
    using res old rows' f by (simp add: h1 arr0_def w1_def)
qed

lemma random_directions_with_frame:
  assumes "random_directions_with conv gen junk n r w = (res, w')"
  shows "(\<forall>q<length (heap w). heap w' ! q = heap w ! q)
       \<and> length (heap w) \<le> length (heap w')
       \<and> rng w \<le> rng w' \<and> rng w' \<le> rng w + 2 * nat n
       \<and> (\<forall>p. res = Inr p \<longrightarrow> rng w' = rng w + 2 * nat n)"
proof (cases "n < 0")
  case True
  then show ?thesis using assms by (simp add: random_directions_with_def)
next
  case False
  let ?out = "length (heap w)"
  define w1 where "w1 = w\<lparr>heap := heap w @
     [\<lparr>shape0 = nat n, shape1 = 3, dtype = Float64, data = map junk [0..<nat n * 3]\<rparr>]\<rparr>"
  have e: "np_empty (nat n) 3 junk w = (?out, w1)"
    by (simp add: np_empty_def w1_def)
  obtain rl wl where l: "random_directions_loop conv gen ?out r 0 (nat n) w1 = (rl, wl)"
    by (cases "random_directions_loop conv gen ?out r 0 (nat n) w1")
  note f = loop_frame[OF l]
  have ww: "w' = wl" and rr: "\<forall>p. res = Inr p \<longrightarrow> rl = Inr ()"
    using assms False e l
    by (auto simp: random_directions_with_def split: sum.splits)
  show ?thesis using f rr unfolding ww
    by (auto simp: w1_def nth_append)
qed

lemma diag_tanh_trace_sum:
  "diag_tanh_trace a = (\<Sum>i = 0..<shape0 a. tanh (data a ! (i * shape1 a + i)))"
  by (simp add: diag_tanh_trace_def foldl_add_sum_list interv_sum_list_conv_sum_set_nat)

lemma go_fast_result:
  "go_fast behind a w = (Inr (length (heap w)),
     w\<lparr>heap := heap w @ [(heap w ! a)\<lparr>dtype := Float64,
        data := map (\<lambda>v. v + go_fast_loop behind (heap w ! a) 0 (shape0 (heap w ! a)) 0)
                  (data (heap w ! a))\<rparr>]\<rparr>)"
  by (simp add: go_fast_def Let_def np_add_scalar_def)

lemma go_fast_in_bounds:
  assumes "shape0 (heap w ! a) \<le> shape1 (heap w ! a)"
  shows "go_fast behind a w = (Inr (length (heap w)),
     w\<lparr>heap := heap w @ [(heap w ! a)\<lparr>dtype := Float64,
        data := map (\<lambda>v. v + diag_tanh_trace (heap w ! a)) (data (heap w ! a))\<rparr>]\<rparr>)"
  using assms go_fast_loop_in_bounds[of "shape0 (heap w ! a)" "heap w ! a" behind 0 0]
  by (simp add: go_fast_result diag_tanh_trace_def)

lemma go_fast_py_func_in_bounds:
  assumes "shape0 (heap w ! a) \<le> shape1 (heap w ! a)"
  shows "go_fast_py_func a w = (Inr (length (heap w)),
     w\<lparr>heap := heap w @ [(heap w ! a)\<lparr>dtype := Float64,
        data := map (\<lambda>v. v + diag_tanh_trace (heap w ! a)) (data (heap w ! a))\<rparr>]\<rparr>)"
  using assms go_fast_py_func_loop_in_bounds[of "shape0 (heap w ! a)" "heap w ! a" 0 0]
  by (simp add: go_fast_py_func_def Let_def np_add_scalar_def diag_tanh_trace_def)

lemma go_fast_py_func_out_of_bounds:
  assumes "shape1 (heap w ! a) < shape0 (heap w ! a)"
  shows "go_fast_py_func a w = (Inl IndexError, w)"
  using assms go_fast_py_func_loop_out_of_bounds[of 0 "heap w ! a" "shape0 (heap w ! a)" 0]
  by (simp add: go_fast_py_func_def Let_def)



lemma go_fast_frame:
  "fst (go_fast behind a w) = Inr (length (heap w)) \<and> rng (snd (go_fast behind a w)) = rng w
   \<and> (\<forall>q<length (heap w). heap (snd (go_fast behind a w)) ! q = heap w ! q)"
  by (simp add: go_fast_result nth_append)


lemma random_directions_returns:
  assumes "unit_draws gen" and "0 \<le> n"
  shows "fst (random_directions_with conv gen junk n r w) = Inr (length (heap w))
       \<and> rng (snd (random_directions_with conv gen junk n r w)) = rng w + 2 * nat n"
  using random_directions_with_result[OF assms, of conv junk r w] by auto

lemma arccos_argument_range:
  assumes "unit_draws gen"
  shows "- 1 \<le> fst (random_uniform gen (- 1) 1 v) \<and> fst (random_uniform gen (- 1) 1 v) \<le> 1"
proof -
  have "0 \<le> gen (rng v)" "gen (rng v) \<le> 1"
    using unit_draws_closed[OF assms] by simp_all
  then show ?thesis by (simp add: random_uniform_def)
qed

lemma random_directions_with_deref_eq:
  assumes u1: "unit_draws gen1" and u2: "unit_draws gen2" and n: "0 \<le> n"
    and agree: "\<forall>k<2 * nat n. gen1 (rng w1 + k) = gen2 (rng w2 + k)"
  shows "deref (random_directions_with conv gen1 junk1 n r w1)
       = deref (random_directions_with conv gen2 junk2 n r w2)"
proof -
  from random_directions_with_result[OF u1 n, of conv junk1 r w1] obtain v1 where
    r1: "random_directions_with conv gen1 junk1 n r w1 = (Inr (length (heap w1)), v1)" and
    s1: "shape0 (heap v1 ! length (heap w1)) = nat n" "shape1 (heap v1 ! length (heap w1)) = 3"
        "dtype (heap v1 ! length (heap w1)) = Float64"
        "length (data (heap v1 ! length (heap w1))) = nat n * 3" and
    rows1: "\<forall>k<nat n. row3 (heap v1 ! length (heap w1)) k = direction conv gen1 r (rng w1 + 2 * k)"
    by blast
  from random_directions_with_result[OF u2 n, of conv junk2 r w2] obtain v2 where
    r2: "random_directions_with conv gen2 junk2 n r w2 = (Inr (length (heap w2)), v2)" and
    s2: "shape0 (heap v2 ! length (heap w2)) = nat n" "shape1 (heap v2 ! length (heap w2)) = 3"
        "dtype (heap v2 ! length (heap w2)) = Float64"
        "length (data (heap v2 ! length (heap w2))) = nat n * 3" and
    rows2: "\<forall>k<nat n. row3 (heap v2 ! length (heap w2)) k = direction conv gen2 r (rng w2 + 2 * k)"
    by blast
  have d: "direction conv gen1 r (rng w1 + 2 * k) = direction conv gen2 r (rng w2 + 2 * k)"
    if "k < nat n" for k
  proof -
    have "2 * k < 2 * nat n" "2 * k + 1 < 2 * nat n" using that by simp_all
    with agree have "gen1 (rng w1 + 2 * k) = gen2 (rng w2 + 2 * k)"
      "gen1 (rng w1 + (2 * k + 1)) = gen2 (rng w2 + (2 * k + 1))" by blast+
    then show ?thesis by (simp add: direction_def drawn_theta_def drawn_phi_def)
  qed
  have "\<forall>k<nat n. row3 (heap v1 ! length (heap w1)) k = row3 (heap v2 ! length (heap w2)) k"
    using rows1 rows2 d by simp
  then have "data (heap v1 ! length (heap w1)) = data (heap v2 ! length (heap w2))"
    using rows_eq_imp_data_eq[OF s1(4) s2(4)] by (simp add: row3_def)
  then have "heap v1 ! length (heap w1) = heap v2 ! length (heap w2)"
    using s1 s2 by (intro ndarray.equality) simp_all
  then show ?thesis by (simp add: r1 r2 deref_def)
qed

lemma sphere_ring_identity:
  fixes r s c s' c' :: real
  shows "(r * s * c')\<^sup>2 + (r * s * s')\<^sup>2 + (r * c)\<^sup>2 = r\<^sup>2 * (s\<^sup>2 * (c'\<^sup>2 + s'\<^sup>2) + c\<^sup>2)"
  by algebra

lemma spherical_norm_sq: "norm_sq (spherical_to_cartesian r theta phi) = r\<^sup>2"
proof -
  have "(r * sin theta * cos phi)\<^sup>2 + (r * sin theta * sin phi)\<^sup>2 + (r * cos theta)\<^sup>2
      = r\<^sup>2 * ((sin theta)\<^sup>2 * ((cos phi)\<^sup>2 + (sin phi)\<^sup>2) + (cos theta)\<^sup>2)"
    by (rule sphere_ring_identity)
  also have "\<dots> = r\<^sup>2" by simp
  finally show ?thesis
    by (simp add: norm_sq_def spherical_to_cartesian_def Let_def)
qed

section \<open>Evaluation at the concrete inputs\<close>

lemma random_directions_with_one:
  assumes "0 \<le> gen (Suc (rng w))" "gen (Suc (rng w)) \<le> 1"
  shows "random_directions_with conv gen junk 1 r w =
     (case direction conv gen r (rng w) of (x, y, z) \<Rightarrow>
       (Inr (length (heap w)),
        w\<lparr>heap := heap w @ [\<lparr>shape0 = 1, shape1 = 3, dtype = Float64, data = [x, y, z]\<rparr>],
          rng := rng w + 2\<rparr>))"
proof -
  let ?out = "length (heap w)"
  let ?w1 = "w\<lparr>heap := heap w @
     [\<lparr>shape0 = 1, shape1 = 3, dtype = Float64, data = map junk [0..<3]\<rparr>]\<rparr>"
  have b: "random_directions_body conv gen ?out r 0 ?w1 =
     (case direction conv gen r (rng w) of (x, y, z) \<Rightarrow>
       (Inr (), w\<lparr>heap := heap w @ [\<lparr>shape0 = 1, shape1 = 3, dtype = Float64, data = [x, y, z]\<rparr>],
          rng := rng w + 2\<rparr>))"
    using assms body_success[of gen ?w1 0 ?out conv r]
    by (simp add: upt_conv_Cons split: prod.splits)
  show ?thesis
    using b
    by (simp add: random_directions_with_def np_empty_def random_directions_loop.simps[of _ _ _ _ 0]
        random_directions_loop.simps[of _ _ _ _ "Suc 0"] split: prod.splits)
qed

lemma direction_half_gen_0: "direction spherical_to_cartesian half_gen r 0 = (r, 0, 0)"
  by (simp add: direction_def drawn_theta_def drawn_phi_def half_gen_def
      spherical_to_cartesian_def)


lemma direction_origin_conv: "direction origin_conv gen r pos = (0, 0, 0)"
  by (simp add: direction_def origin_conv_def)

lemma unit_draws_half_gen: "unit_draws half_gen"
  by (simp add: unit_draws_def half_gen_def)

lemma go_fast_tall_zero_behind:
  "deref (go_fast zero_junk 0 (world_with tall_array))
     = Inr \<lparr>shape0 = 2, shape1 = 1, dtype = Float64, data = [1 + tanh 1, 2 + tanh 1]\<rparr>"
  by (simp add: deref_def go_fast_result go_fast_loop_fold getitem_nocheck_def world_with_def
      tall_array_def zero_junk_def upt_conv_Cons)

lemma go_fast_eq_py_func:
  "shape0 (heap w ! a) \<le> shape1 (heap w ! a) \<Longrightarrow> go_fast behind a w = go_fast_py_func a w"
  by (simp add: go_fast_in_bounds go_fast_py_func_in_bounds)

section \<open>The claims\<close>

subsection \<open>C2: what \<^verbatim>\<open>go_fast\<close> computes\<close>

text \<open>
  C2: for every square matrix \<open>a\<close>, \<^verbatim>\<open>go_fast(a)\<close> returns a new array holding \<open>a\<close> with one
  scalar added to every entry; the scalar is accumulated from \<open>0.0\<close> over the diagonal in
  index order, and equals the sum over \<open>i\<close> of \<open>tanh (a[i, i])\<close>. This holds of the compiled
  function, whatever lies behind the buffer, and of the uncompiled original.
\<close>

theorem go_fast_adds_trace:
  assumes "shape0 (heap w ! a) = shape1 (heap w ! a)"
  shows "go_fast behind a w = (Inr (length (heap w)),
           w\<lparr>heap := heap w @ [(heap w ! a)\<lparr>dtype := Float64,
              data := map (\<lambda>v. v + diag_tanh_trace (heap w ! a)) (data (heap w ! a))\<rparr>]\<rparr>)
       \<and> go_fast_py_func a w = (Inr (length (heap w)),
           w\<lparr>heap := heap w @ [(heap w ! a)\<lparr>dtype := Float64,
              data := map (\<lambda>v. v + diag_tanh_trace (heap w ! a)) (data (heap w ! a))\<rparr>]\<rparr>)
       \<and> diag_tanh_trace (heap w ! a)
           = (\<Sum>i = 0..<shape0 (heap w ! a). tanh (data (heap w ! a) ! (i * shape1 (heap w ! a) + i)))"
  using assms go_fast_in_bounds[of w a behind] go_fast_py_func_in_bounds[of w a]
    diag_tanh_trace_sum[of "heap w ! a"] by simp

theorem go_fast_adds_trace_witness:
  "shape0 (heap (world_with zero_diag) ! 0) = shape1 (heap (world_with zero_diag) ! 0)
   \<and> go_fast half_gen 0 (world_with zero_diag)
      = (Inr 1, \<lparr>heap = [zero_diag, \<lparr>shape0 = 2, shape1 = 2, dtype = Float64, data = [0, 5, 7, 0]\<rparr>],
                 rng = 0\<rparr>)
   \<and> go_fast_py_func 0 (world_with zero_diag)
      = (Inr 1, \<lparr>heap = [zero_diag, \<lparr>shape0 = 2, shape1 = 2, dtype = Float64, data = [0, 5, 7, 0]\<rparr>],
                 rng = 0\<rparr>)"
  using go_fast_adds_trace[of "world_with zero_diag" 0 half_gen]
  by (simp add: world_with_def zero_diag_def diag_tanh_trace_def upt_conv_Cons)

subsection \<open>C3: purity\<close>




subsection \<open>C4: no error state\<close>

text \<open>
  C4: when the matrix given to \<^verbatim>\<open>go_fast\<close> is square, every index \<open>a[i, i]\<close> of the loop is
  in bounds (the checked read succeeds, and the unchecked read of the compiled code stays
  inside the buffer), and \<^verbatim>\<open>go_fast\<close> returns an array, compiled or not. When the generator keeps the library's promise
  (values in \<open>[0, 1)\<close>), the argument \<^verbatim>\<open>random_directions\<close> passes to \<^verbatim>\<open>arccos\<close> lies in
  \<open>[-1, 1]\<close>, so \<^verbatim>\<open>random_directions\<close> never ends in the domain error, nor in an index
  error, and for a count \<open>n \<ge> 0\<close> it returns an array.
\<close>

theorem no_error_state:
  assumes "shape0 (heap w ! a) = shape1 (heap w ! a)" and "unit_draws gen"
  shows "(\<forall>i<shape0 (heap w ! a).
            getitem (heap w ! a) i i = Inr (data (heap w ! a) ! (i * shape1 (heap w ! a) + i)))
       \<and> (\<forall>i<shape0 (heap w ! a).
            getitem_nocheck behind (heap w ! a) i i = data (heap w ! a) ! (i * shape1 (heap w ! a) + i))
       \<and> fst (go_fast behind a w) = Inr (length (heap w))
       \<and> fst (go_fast_py_func a w) = Inr (length (heap w))
       \<and> - 1 \<le> fst (random_uniform gen (- 1) 1 v) \<and> fst (random_uniform gen (- 1) 1 v) \<le> 1
       \<and> np_arccos (fst (random_uniform gen (- 1) 1 v))
           = Inr (arccos (fst (random_uniform gen (- 1) 1 v)))
       \<and> fst (random_directions gen junk n r v) \<noteq> Inl DomainError
       \<and> fst (random_directions gen junk n r v) \<noteq> Inl IndexError
       \<and> (0 \<le> n \<longrightarrow> fst (random_directions gen junk n r v) = Inr (length (heap v)))"
proof -
  have g: "\<forall>i<shape0 (heap w ! a).
            getitem (heap w ! a) i i = Inr (data (heap w ! a) ! (i * shape1 (heap w ! a) + i))"
    using assms(1) by (simp add: getitem_def)
  have gn: "\<forall>i<shape0 (heap w ! a).
            getitem_nocheck behind (heap w ! a) i i = data (heap w ! a) ! (i * shape1 (heap w ! a) + i)"
    using assms(1) by (simp add: getitem_nocheck_in_bounds)
  have f: "fst (go_fast behind a w) = Inr (length (heap w))"
    by (simp add: go_fast_frame)
  have fp: "fst (go_fast_py_func a w) = Inr (length (heap w))"
    using assms(1) by (simp add: go_fast_py_func_in_bounds)
  note ar = arccos_argument_range[OF assms(2), of v]
  have ac: "np_arccos (fst (random_uniform gen (- 1) 1 v))
           = Inr (arccos (fst (random_uniform gen (- 1) 1 v)))"
    using ar by (simp add: np_arccos_def)
  have rd: "fst (random_directions gen junk n r v) \<noteq> Inl DomainError
       \<and> fst (random_directions gen junk n r v) \<noteq> Inl IndexError
       \<and> (0 \<le> n \<longrightarrow> fst (random_directions gen junk n r v) = Inr (length (heap v)))"
  proof (cases "n < 0")
    case True
    then show ?thesis by (simp add: random_directions_def random_directions_with_def)
  next
    case False
    then have "0 \<le> n" by simp
    from random_directions_returns[OF assms(2) this, of spherical_to_cartesian junk r v]
    show ?thesis by (simp add: random_directions_def)
  qed
  show ?thesis using g gn f fp ar ac rd by blast
qed

theorem no_error_state_witness:
  "shape0 (heap (world_with zero_diag) ! 0) = shape1 (heap (world_with zero_diag) ! 0)
   \<and> unit_draws half_gen
   \<and> getitem (heap (world_with zero_diag) ! 0) 1 1 = Inr 0
   \<and> getitem_nocheck half_gen (heap (world_with zero_diag) ! 0) 1 1 = 0
   \<and> fst (go_fast half_gen 0 (world_with zero_diag)) = Inr 1
   \<and> fst (go_fast_py_func 0 (world_with zero_diag)) = Inr 1
   \<and> - 1 \<le> fst (random_uniform half_gen (- 1) 1 empty_world)
   \<and> fst (random_uniform half_gen (- 1) 1 empty_world) \<le> 1
   \<and> fst (random_directions half_gen zero_junk 1 1 empty_world) \<noteq> Inl DomainError
   \<and> fst (random_directions half_gen zero_junk 1 1 empty_world) = Inr 0"
  using no_error_state[where w = "world_with zero_diag" and a = 0 and gen = half_gen
      and behind = half_gen and v = empty_world and junk = zero_junk and n = 1 and r = 1]
  by (simp add: unit_draws_half_gen world_with_def zero_diag_def empty_world_def)

subsection \<open>C5: what a call leaves behind\<close>




subsection \<open>C6: which function calls which\<close>

text \<open>
  C6, as stated, says that no example function invokes another. \<^verbatim>\<open>random_directions\<close>
  calls \<^verbatim>\<open>spherical_to_cartesian\<close> in every iteration and stores what it returns. C6 as
  amended: \<^verbatim>\<open>go_fast\<close> and \<^verbatim>\<open>spherical_to_cartesian\<close> call no other example function;
  \<^verbatim>\<open>random_directions\<close> is its body at the binding \<^verbatim>\<open>spherical_to_cartesian\<close>, and row \<open>k\<close>
  of its result is the tuple that the bound function returns for \<open>r\<close> and the angles drawn in
  iteration \<open>k\<close>.
\<close>

theorem random_directions_calls_conversion:
  assumes "unit_draws gen" and "0 \<le> n"
  shows "random_directions gen junk n r w
           = random_directions_with spherical_to_cartesian gen junk n r w
       \<and> fst (random_directions_with conv gen junk n r w) = Inr (length (heap w))
       \<and> (\<forall>k<nat n. row3 (heap (snd (random_directions_with conv gen junk n r w)) ! length (heap w)) k
             = conv r (drawn_theta gen (rng w + 2 * k)) (drawn_phi gen (rng w + 2 * k)))"
proof -
  from random_directions_with_result[OF assms, of conv junk r w] obtain w' where
    res: "random_directions_with conv gen junk n r w = (Inr (length (heap w)), w')" and
    rows: "\<forall>k<nat n. row3 (heap w' ! length (heap w)) k = direction conv gen r (rng w + 2 * k)"
    by blast
  show ?thesis using rows by (simp add: res random_directions_def direction_def)
qed

theorem random_directions_calls_conversion_witness:
  "unit_draws half_gen \<and> (0::int) \<le> 1
   \<and> random_directions half_gen zero_junk 1 3 empty_world
       = random_directions_with spherical_to_cartesian half_gen zero_junk 1 3 empty_world
   \<and> fst (random_directions_with spherical_to_cartesian half_gen zero_junk 1 3 empty_world) = Inr 0
   \<and> row3 (heap (snd (random_directions_with spherical_to_cartesian half_gen zero_junk 1 3
         empty_world)) ! 0) 0
       = spherical_to_cartesian 3 (drawn_theta half_gen 0) (drawn_phi half_gen 0)"
  using random_directions_calls_conversion[OF unit_draws_half_gen, of 1 zero_junk 3 empty_world
      spherical_to_cartesian]
  by (simp add: unit_draws_half_gen empty_world_def)

text \<open>With the name bound to a function that returns the origin the result is the row
  \<open>(0, 0, 0)\<close>; with the notebook's binding the same call returns \<open>(2, 0, 0)\<close>.\<close>

theorem random_directions_callee_counterexample:
  "deref (random_directions_with origin_conv half_gen zero_junk 1 2 empty_world)
     = Inr \<lparr>shape0 = 1, shape1 = 3, dtype = Float64, data = [0, 0, 0]\<rparr>
   \<and> deref (random_directions_with spherical_to_cartesian half_gen zero_junk 1 2 empty_world)
     = Inr \<lparr>shape0 = 1, shape1 = 3, dtype = Float64, data = [2, 0, 0]\<rparr>"
  using random_directions_with_one[of half_gen empty_world spherical_to_cartesian zero_junk 2]
    random_directions_with_one[of half_gen empty_world origin_conv zero_junk 2]
  by (simp add: direction_half_gen_0 direction_origin_conv empty_world_def half_gen_def deref_def)

subsection \<open>C7: the calls return\<close>

text \<open>
  C7: both loops are recursions on the distance between the counter and its bound
  (\<open>a.shape[0] - i\<close> and \<open>n - i\<close>; the termination proofs are with the definitions), so
  every call has an outcome. The compiled \<^verbatim>\<open>go_fast\<close> returns an array for every input
  matrix, whatever lies behind the buffer; the uncompiled original returns an array when the
  matrix has at most as many rows as columns and ends in IndexError otherwise.
  \<^verbatim>\<open>random_directions\<close> draws at most \<open>2 n\<close> values, and for \<open>n \<ge> 0\<close> and a generator with
  values in \<open>[0, 1)\<close> it returns an array after exactly \<open>2 n\<close> draws, two for each of its \<open>n\<close>
  iterations.
\<close>

theorem example_functions_return:
  "fst (go_fast behind a w) = Inr (length (heap w))
   \<and> (shape0 (heap w ! a) \<le> shape1 (heap w ! a) \<longrightarrow>
        fst (go_fast_py_func a w) = Inr (length (heap w)))
   \<and> (shape1 (heap w ! a) < shape0 (heap w ! a) \<longrightarrow> go_fast_py_func a w = (Inl IndexError, w))
   \<and> rng (snd (random_directions gen junk n r v)) \<le> rng v + 2 * nat n
   \<and> (0 \<le> n \<longrightarrow> unit_draws gen \<longrightarrow>
        fst (random_directions gen junk n r v) = Inr (length (heap v))
      \<and> rng (snd (random_directions gen junk n r v)) = rng v + 2 * nat n)"
proof -
  obtain res v' where c: "random_directions_with spherical_to_cartesian gen junk n r v = (res, v')"
    by (cases "random_directions_with spherical_to_cartesian gen junk n r v")
  from random_directions_with_frame[OF c]
  have b: "rng (snd (random_directions gen junk n r v)) \<le> rng v + 2 * nat n"
    by (simp add: random_directions_def c)
  show ?thesis
    using b random_directions_returns[of gen n spherical_to_cartesian junk r v]
      go_fast_frame[of behind a w]
    by (simp add: go_fast_py_func_in_bounds go_fast_py_func_out_of_bounds random_directions_def)
qed

theorem example_functions_return_witness:
  "fst (go_fast zero_junk 0 (world_with notebook_x)) = Inr 1
   \<and> fst (go_fast zero_junk 0 (world_with tall_array)) = Inr 1
   \<and> deref (go_fast zero_junk 0 (world_with tall_array))
       = Inr \<lparr>shape0 = 2, shape1 = 1, dtype = Float64, data = [1 + tanh 1, 2 + tanh 1]\<rparr>
   \<and> fst (go_fast_py_func 0 (world_with notebook_x)) = Inr 1
   \<and> go_fast_py_func 0 (world_with tall_array) = (Inl IndexError, world_with tall_array)
   \<and> rng (snd (random_directions half_gen zero_junk 1 1 empty_world)) \<le> 2
   \<and> unit_draws half_gen
   \<and> fst (random_directions half_gen zero_junk 1 1 empty_world) = Inr 0
   \<and> rng (snd (random_directions half_gen zero_junk 1 1 empty_world)) = 2"
  using example_functions_return[where w = "world_with notebook_x" and a = 0 and behind = zero_junk
      and gen = half_gen and junk = zero_junk and n = 1 and r = 1 and v = empty_world]
    example_functions_return[where w = "world_with tall_array" and a = 0 and behind = zero_junk
      and gen = half_gen and junk = zero_junk and n = 1 and r = 1 and v = empty_world]
    go_fast_tall_zero_behind
  by (simp add: unit_draws_half_gen world_with_def notebook_x_def tall_array_def empty_world_def)

subsection \<open>C8: the conversion formula\<close>

text \<open>
  C8: for every \<open>r\<close>, \<open>theta\<close> and \<open>phi\<close>, \<^verbatim>\<open>spherical_to_cartesian\<close> returns the tuple
  \<open>(r sin theta cos phi, r sin theta sin phi, r cos theta)\<close> of the physics convention.
\<close>

theorem spherical_to_cartesian_formula:
  "spherical_to_cartesian r theta phi =
     (r * sin theta * cos phi, r * sin theta * sin phi, r * cos theta)"
  by (simp add: spherical_to_cartesian_def Let_def)

subsection \<open>C9: the rows lie on the sphere\<close>

text \<open>
  C9: in exact real arithmetic the tuple \<^verbatim>\<open>spherical_to_cartesian\<close> returns has squared norm
  \<open>r\<^sup>2\<close> for all \<open>theta\<close> and \<open>phi\<close>, and so has every row of the array that
  \<^verbatim>\<open>random_directions(n, r)\<close> returns, whatever values in \<open>[0, 1)\<close> the generator yields.
\<close>

theorem random_directions_rows_on_sphere:
  assumes "unit_draws gen" and "0 \<le> n"
  shows "norm_sq (spherical_to_cartesian r theta phi) = r\<^sup>2
       \<and> fst (random_directions gen junk n r w) = Inr (length (heap w))
       \<and> (\<forall>k<nat n. norm_sq (row3 (heap (snd (random_directions gen junk n r w)) ! length (heap w)) k)
             = r\<^sup>2)"
proof -
  from random_directions_with_result[OF assms, of spherical_to_cartesian junk r w] obtain w' where
    res: "random_directions gen junk n r w = (Inr (length (heap w)), w')" and
    rows: "\<forall>k<nat n. row3 (heap w' ! length (heap w)) k
             = direction spherical_to_cartesian gen r (rng w + 2 * k)"
    unfolding random_directions_def by blast
  show ?thesis
    using rows by (simp add: res spherical_norm_sq direction_def)
qed

theorem random_directions_rows_on_sphere_witness:
  "unit_draws half_gen \<and> (0::int) \<le> 1
   \<and> norm_sq (spherical_to_cartesian 2 0 0) = 2\<^sup>2
   \<and> fst (random_directions half_gen zero_junk 1 2 empty_world) = Inr 0
   \<and> norm_sq (row3 (heap (snd (random_directions half_gen zero_junk 1 2 empty_world)) ! 0) 0) = 2\<^sup>2"
  using random_directions_rows_on_sphere[OF unit_draws_half_gen, of 1 2 0 0 zero_junk empty_world]
  by (simp add: unit_draws_half_gen empty_world_def)

subsection \<open>C10: the shape of the result\<close>

text \<open>
  C10: for \<open>n \<ge> 0\<close>, \<^verbatim>\<open>random_directions(n, r)\<close> returns a float64 array of shape \<open>(n, 3)\<close>
  whose buffer has \<open>3 n\<close> cells. Every row has been assigned: row \<open>k\<close> is the tuple computed
  in iteration \<open>k\<close>, and the array does not depend on what the uninitialised memory held.
  \<^verbatim>\<open>random_directions(0, r)\<close> returns the empty array of shape \<open>(0, 3)\<close>.
\<close>

theorem random_directions_shape:
  assumes "unit_draws gen" and "0 \<le> n"
  shows "fst (random_directions gen junk n r w) = Inr (length (heap w))
       \<and> shape0 (heap (snd (random_directions gen junk n r w)) ! length (heap w)) = nat n
       \<and> shape1 (heap (snd (random_directions gen junk n r w)) ! length (heap w)) = 3
       \<and> dtype (heap (snd (random_directions gen junk n r w)) ! length (heap w)) = Float64
       \<and> wf_ndarray (heap (snd (random_directions gen junk n r w)) ! length (heap w))
       \<and> (\<forall>k<nat n. row3 (heap (snd (random_directions gen junk n r w)) ! length (heap w)) k
             = spherical_to_cartesian r (drawn_theta gen (rng w + 2 * k)) (drawn_phi gen (rng w + 2 * k)))
       \<and> deref (random_directions gen junk n r w) = deref (random_directions gen junk' n r w)
       \<and> deref (random_directions gen junk 0 r w)
           = Inr \<lparr>shape0 = 0, shape1 = 3, dtype = Float64, data = []\<rparr>"
proof -
  from random_directions_with_result[OF assms, of spherical_to_cartesian junk r w] obtain w' where
    res: "random_directions gen junk n r w = (Inr (length (heap w)), w')" and
    sh: "shape0 (heap w' ! length (heap w)) = nat n" "shape1 (heap w' ! length (heap w)) = 3"
        "dtype (heap w' ! length (heap w)) = Float64"
        "length (data (heap w' ! length (heap w))) = nat n * 3" and
    rows: "\<forall>k<nat n. row3 (heap w' ! length (heap w)) k
             = direction spherical_to_cartesian gen r (rng w + 2 * k)"
    unfolding random_directions_def by blast
  have j: "deref (random_directions gen junk n r w) = deref (random_directions gen junk' n r w)"
    unfolding random_directions_def
    using random_directions_with_deref_eq[OF assms(1) assms(1) assms(2), of w w] by simp
  have z: "deref (random_directions gen junk 0 r w)
           = Inr \<lparr>shape0 = 0, shape1 = 3, dtype = Float64, data = []\<rparr>"
    by (simp add: random_directions_def random_directions_with_def np_empty_def deref_def
        random_directions_loop.simps[of _ _ _ _ 0 0])
  show ?thesis
    using sh rows j z by (simp add: res wf_ndarray_def direction_def)
qed

theorem random_directions_shape_witness:
  "unit_draws half_gen \<and> (0::int) \<le> 1
   \<and> fst (random_directions half_gen zero_junk 1 5 empty_world) = Inr 0
   \<and> shape0 (heap (snd (random_directions half_gen zero_junk 1 5 empty_world)) ! 0) = 1
   \<and> shape1 (heap (snd (random_directions half_gen zero_junk 1 5 empty_world)) ! 0) = 3
   \<and> dtype (heap (snd (random_directions half_gen zero_junk 1 5 empty_world)) ! 0) = Float64
   \<and> row3 (heap (snd (random_directions half_gen zero_junk 1 5 empty_world)) ! 0) 0 = (5, 0, 0)"
  using random_directions_shape[OF unit_draws_half_gen, of 1 zero_junk 5 empty_world]
    direction_half_gen_0[of 5]
  by (simp add: unit_draws_half_gen empty_world_def direction_def)

end
